theory Spec2Isabelle
  imports Main "HOL-Library.AList"
begin

section \<open>Documents\<close>

text \<open>
  A blueprint document is what the YAML loader hands to the blueprint component: a tree
  of scalars, sequences and mappings. A scalar written with the marker \<open>!input name\<close>
  is a placeholder reference; it is kept as its own constructor. Python dictionaries keep
  their insertion order and have unique keys, so a mapping is an association list that
  is read with \<^const>\<open>map_of\<close>.
\<close>

datatype node =
    Null
  | Bool bool
  | Num int
  | Str string
  | Placeholder string
  | List "node list"
  | Dict "(string \<times> node) list"

subsection \<open>Constants of the component\<close>

text \<open>
  Modelled from the spec: the key names of \<open>const.py\<close>, which is not part of the
  sources at hand. The spec's example document writes the metadata block under
  \<open>blueprint\<close> with the fields \<open>domain\<close>, \<open>name\<close> and \<open>input\<close>; the
  instance configuration carries a use-blueprint section.
\<close>

definition CONF_BLUEPRINT :: string where "CONF_BLUEPRINT = ''blueprint''"
definition CONF_USE_BLUEPRINT :: string where "CONF_USE_BLUEPRINT = ''use_blueprint''"
definition CONF_INPUT :: string where "CONF_INPUT = ''input''"
definition CONF_DOMAIN :: string where "CONF_DOMAIN = ''domain''"
definition CONF_NAME :: string where "CONF_NAME = ''name''"
definition CONF_SOURCE_URL :: string where "CONF_SOURCE_URL = ''source_url''"
definition CONF_HOMEASSISTANT :: string where "CONF_HOMEASSISTANT = ''homeassistant''"
definition CONF_MIN_VERSION :: string where "CONF_MIN_VERSION = ''min_version''"

subsection \<open>Errors\<close>

text \<open>
  \<open>vol.Invalid\<close> carries the path of the offending element. The fourth argument of
  \<open>InvalidBlueprint\<close> is either that error or one of two formatted messages:
  \<^item> \<open>Incorrect_type d e\<close> stands for
    \<open>f"Found incorrect blueprint type {d}, expected {e}"\<close>;
  \<^item> \<open>Missing_input_definition m\<close> stands for
    \<open>f"Missing input definition for {', '.join(m)}"\<close>. The source joins the members of a
    Python set, whose iteration order the language leaves open, so the message is kept
    as the set of names it lists.
\<close>

datatype vol_invalid = Invalid "string list"

datatype detail =
    Schema_error vol_invalid
  | Incorrect_type node node
  | Missing_input_definition "string set"

datatype io_error =
    HomeAssistantError
  | FileNotFoundError
  | FileExistsError
  | NotADirectoryError
  | IsADirectoryError

datatype error =
    InvalidBlueprint node node node detail
  | FailedToLoad string string io_error
  | MissingPlaceholder node node "string set"
  | FileAlreadyExists string string
  | UndefinedSubstitution string
  | KeyError string
  | TypeError
  | AttributeError
  | OSError io_error

text \<open>An \<open>Optional[str]\<close> argument as the Python value it is.\<close>

fun py_opt :: "string option \<Rightarrow> node" where
  "py_opt None = Null"
| "py_opt (Some s) = Str s"

text \<open>\<open>obj[key]\<close>: a missing key raises \<open>KeyError\<close>, subscripting anything but a
  mapping with a string raises \<open>TypeError\<close>.\<close>

fun getitem :: "node \<Rightarrow> string \<Rightarrow> error + node" where
  "getitem (Dict kvs) k = (case map_of kvs k of None \<Rightarrow> Inl (KeyError k) | Some v \<Rightarrow> Inr v)"
| "getitem _ k = Inl TypeError"

text \<open>\<open>obj.get(key, default)\<close>: only mappings have the method.\<close>

fun get_default :: "node \<Rightarrow> string \<Rightarrow> node \<Rightarrow> error + node" where
  "get_default (Dict kvs) k d = (case map_of kvs k of None \<Rightarrow> Inr d | Some v \<Rightarrow> Inr v)"
| "get_default _ k d = Inl AttributeError"

text \<open>
  \<open>set(obj)\<close> for a mapping is the set of its keys. Both schemas admit only a mapping
  where the source applies \<open>set\<close>; any other value is reported as \<open>TypeError\<close> here.
\<close>

fun py_set :: "node \<Rightarrow> error + string set" where
  "py_set (Dict kvs) = Inr (fst ` set kvs)"
| "py_set _ = Inl TypeError"

section \<open>Placeholder engine\<close>

text \<open>
  Modelled from the spec: \<open>helpers/placeholder.py\<close> is not part of the sources at hand.
  \<open>extract_placeholders\<close> walks the whole tree (lists, mappings, scalars) and collects
  every distinct placeholder reference.
\<close>

fun extract_placeholders :: "node \<Rightarrow> string set" where
  "extract_placeholders (Placeholder n) = {n}"
| "extract_placeholders (List xs) = (\<Union>x \<in> set xs. extract_placeholders x)"
| "extract_placeholders (Dict kvs) = (\<Union>kv \<in> set kvs. extract_placeholders (snd kv))"
| "extract_placeholders _ = {}"

text \<open>
  Modelled from the spec: \<open>substitute\<close> produces a structurally identical tree in which
  every placeholder reference is replaced by its value; other content passes through
  unchanged; a reference without a value fails.
\<close>

fun substitute :: "node \<Rightarrow> (string \<times> node) list \<Rightarrow> error + node"
and substitute_list :: "node list \<Rightarrow> (string \<times> node) list \<Rightarrow> error + node list"
and substitute_items ::
  "(string \<times> node) list \<Rightarrow> (string \<times> node) list \<Rightarrow> error + (string \<times> node) list"
where
  "substitute (Placeholder n) subs =
     (case map_of subs n of None \<Rightarrow> Inl (UndefinedSubstitution n) | Some v \<Rightarrow> Inr v)"
| "substitute (List xs) subs =
     (case substitute_list xs subs of Inl e \<Rightarrow> Inl e | Inr ys \<Rightarrow> Inr (List ys))"
| "substitute (Dict kvs) subs =
     (case substitute_items kvs subs of Inl e \<Rightarrow> Inl e | Inr ys \<Rightarrow> Inr (Dict ys))"
| "substitute Null subs = Inr Null"
| "substitute (Bool b) subs = Inr (Bool b)"
| "substitute (Num i) subs = Inr (Num i)"
| "substitute (Str s) subs = Inr (Str s)"
| "substitute_list [] subs = Inr []"
| "substitute_list (x # xs) subs =
     (case substitute x subs of Inl e \<Rightarrow> Inl e
      | Inr y \<Rightarrow>
          (case substitute_list xs subs of Inl e \<Rightarrow> Inl e | Inr ys \<Rightarrow> Inr (y # ys)))"
| "substitute_items [] subs = Inr []"
| "substitute_items ((k, v) # kvs) subs =
     (case substitute v subs of Inl e \<Rightarrow> Inl e
      | Inr y \<Rightarrow>
          (case substitute_items kvs subs of Inl e \<Rightarrow> Inl e
           | Inr ys \<Rightarrow> Inr ((k, y) # ys)))"

section \<open>Blueprint\<close>

text \<open>
  Modelled from the spec: \<open>BLUEPRINT_SCHEMA\<close> of \<open>schemas.py\<close>, which is not part of
  the sources at hand. The metadata block requires \<open>domain\<close> (string), \<open>name\<close>
  (string) and \<open>input\<close> (a mapping from placeholder name to an optional descriptor);
  the source URL and the minimum version are optional strings. The body is arbitrary.
  The minimum version sits where \<open>Blueprint.validate\<close> reads it, under the
  \<open>homeassistant\<close> key of the metadata. A valid document is returned as it is.
\<close>

fun is_descriptor :: "node \<Rightarrow> bool" where
  "is_descriptor Null = True"
| "is_descriptor (Dict _) = True"
| "is_descriptor _ = False"

fun required_str :: "node option \<Rightarrow> bool" where
  "required_str (Some (Str _)) = True"
| "required_str _ = False"

fun optional_str :: "node option \<Rightarrow> bool" where
  "optional_str None = True"
| "optional_str (Some (Str _)) = True"
| "optional_str _ = False"

fun input_mapping :: "node option \<Rightarrow> bool" where
  "input_mapping (Some (Dict ins)) = list_all (is_descriptor \<circ> snd) ins"
| "input_mapping _ = False"

fun optional_homeassistant :: "node option \<Rightarrow> bool" where
  "optional_homeassistant None = True"
| "optional_homeassistant (Some (Dict h)) = optional_str (map_of h CONF_MIN_VERSION)"
| "optional_homeassistant _ = False"

definition valid_metadata :: "(string \<times> node) list \<Rightarrow> bool" where
  "valid_metadata meta \<longleftrightarrow>
     required_str (map_of meta CONF_DOMAIN) \<and>
     required_str (map_of meta CONF_NAME) \<and>
     input_mapping (map_of meta CONF_INPUT) \<and>
     optional_str (map_of meta CONF_SOURCE_URL) \<and>
     optional_homeassistant (map_of meta CONF_HOMEASSISTANT)"

definition BLUEPRINT_SCHEMA :: "node \<Rightarrow> vol_invalid + node" where
  "BLUEPRINT_SCHEMA data =
     (case data of
        Dict kvs \<Rightarrow>
          (case map_of kvs CONF_BLUEPRINT of
             Some (Dict meta) \<Rightarrow>
               if valid_metadata meta then Inr data else Inl (Invalid [CONF_BLUEPRINT])
           | _ \<Rightarrow> Inl (Invalid [CONF_BLUEPRINT]))
      | _ \<Rightarrow> Inl (Invalid []))"

record blueprint =
  data :: node
  placeholders :: "string set"
  domain :: node

text \<open>The properties \<open>metadata\<close> and \<open>name\<close> read the document.\<close>

definition Blueprint_metadata :: "node \<Rightarrow> error + node" where
  "Blueprint_metadata d = getitem d CONF_BLUEPRINT"

definition Blueprint_name :: "node \<Rightarrow> error + node" where
  "Blueprint_name d = (case getitem d CONF_BLUEPRINT of Inl e \<Rightarrow> Inl e | Inr m \<Rightarrow> getitem m CONF_NAME)"

text \<open>\<open>path or self.name\<close>: an absent or empty path gives the name.\<close>

definition path_or_name :: "string option \<Rightarrow> node \<Rightarrow> error + node" where
  "path_or_name path d =
     (case path of
        Some p \<Rightarrow> if p \<noteq> [] then Inr (Str p) else Blueprint_name d
      | None \<Rightarrow> Blueprint_name d)"

text \<open>\<open>expected_domain is not None and data_domain != expected_domain\<close>\<close>

fun domain_mismatch :: "string option \<Rightarrow> node \<Rightarrow> bool" where
  "domain_mismatch None data_domain = False"
| "domain_mismatch (Some e) data_domain = (data_domain \<noteq> Str e)"

text \<open>
  \<open>Blueprint.__init__\<close>. The result is the constructed object, or the exception the
  constructor raises.
\<close>

definition Blueprint_init :: "node \<Rightarrow> string option \<Rightarrow> string option \<Rightarrow> error + blueprint" where
  "Blueprint_init raw path expected_domain =
     (case BLUEPRINT_SCHEMA raw of
        Inl err \<Rightarrow>
          Inl (InvalidBlueprint (py_opt expected_domain) (py_opt path) raw (Schema_error err))
      | Inr d \<Rightarrow>
          let phs = extract_placeholders d in
          (case getitem d CONF_BLUEPRINT of Inl e \<Rightarrow> Inl e | Inr meta \<Rightarrow>
          (case getitem meta CONF_DOMAIN of Inl e \<Rightarrow> Inl e | Inr data_domain \<Rightarrow>
             if domain_mismatch expected_domain data_domain then
               (case path_or_name path d of Inl e \<Rightarrow> Inl e | Inr pn \<Rightarrow>
                  Inl (InvalidBlueprint (py_opt expected_domain) pn d
                         (Incorrect_type data_domain (py_opt expected_domain))))
             else
               (case getitem meta CONF_INPUT of Inl e \<Rightarrow> Inl e | Inr inp \<Rightarrow>
               (case py_set inp of Inl e \<Rightarrow> Inl e | Inr declared \<Rightarrow>
                  let missing = phs - declared in
                  if missing \<noteq> {} then
                    (case path_or_name path d of Inl e \<Rightarrow> Inl e | Inr pn \<Rightarrow>
                       Inl (InvalidBlueprint data_domain pn d
                              (Missing_input_definition missing)))
                  else Inr \<lparr>data = d, placeholders = phs, domain = data_domain\<rparr>)))))"

text \<open>
  The declared input names, the declared domain and the declared minimum version of a
  document, as the spec speaks of them: the keys of the \<open>input\<close> mapping, the
  \<open>domain\<close> field and the minimum-version field of the metadata block.
\<close>

definition declared_inputs :: "node \<Rightarrow> string set" where
  "declared_inputs d =
     (case d of
        Dict kvs \<Rightarrow>
          (case map_of kvs CONF_BLUEPRINT of
             Some (Dict meta) \<Rightarrow>
               (case map_of meta CONF_INPUT of Some (Dict ins) \<Rightarrow> fst ` set ins | _ \<Rightarrow> {})
           | _ \<Rightarrow> {})
      | _ \<Rightarrow> {})"

definition declared_domain :: "node \<Rightarrow> node" where
  "declared_domain d =
     (case d of
        Dict kvs \<Rightarrow>
          (case map_of kvs CONF_BLUEPRINT of
             Some (Dict meta) \<Rightarrow>
               (case map_of meta CONF_DOMAIN of Some v \<Rightarrow> v | None \<Rightarrow> Null)
           | _ \<Rightarrow> Null)
      | _ \<Rightarrow> Null)"

definition declared_min_version :: "node \<Rightarrow> string option" where
  "declared_min_version d =
     (case d of
        Dict kvs \<Rightarrow>
          (case map_of kvs CONF_BLUEPRINT of
             Some (Dict meta) \<Rightarrow>
               (case map_of meta CONF_HOMEASSISTANT of
                  Some (Dict h) \<Rightarrow>
                    (case map_of h CONF_MIN_VERSION of Some (Str v) \<Rightarrow> Some v | _ \<Rightarrow> None)
                | _ \<Rightarrow> None)
           | _ \<Rightarrow> None)
      | _ \<Rightarrow> None)"

text \<open>
  \<open>Blueprint.validate\<close>. \<open>parse_version\<close> of \<open>pkg_resources\<close> and the running
  version \<open>__version__\<close> are parameters; parsed versions are totally ordered. A method
  is modelled as the pair of its outcome and the object after the call.
\<close>

definition Blueprint_validate ::
  "(string \<Rightarrow> 'v::linorder) \<Rightarrow> string \<Rightarrow> blueprint \<Rightarrow> (error + string list option) \<times> blueprint"
where
  "Blueprint_validate parse_version version self =
     ((case Blueprint_metadata (data self) of Inl e \<Rightarrow> Inl e | Inr md \<Rightarrow>
       (case get_default md CONF_HOMEASSISTANT (Dict []) of Inl e \<Rightarrow> Inl e | Inr ha \<Rightarrow>
       (case get_default ha CONF_MIN_VERSION Null of Inl e \<Rightarrow> Inl e | Inr min_version \<Rightarrow>
          (case min_version of
             Null \<Rightarrow> Inr None
           | Str mv \<Rightarrow>
               let errors =
                 (if parse_version version < parse_version mv
                  then [''Requires at least Home Assistant '' @ mv] else [])
               in Inr (if errors = [] then None else Some errors)
           | _ \<Rightarrow> Inl TypeError)))),
      self)"

section \<open>BlueprintInputs\<close>

record blueprint_inputs =
  blueprint :: blueprint
  config_with_inputs :: "(string \<times> node) list"

definition inputs :: "blueprint_inputs \<Rightarrow> error + node" where
  "inputs self =
     (case getitem (Dict (config_with_inputs self)) CONF_USE_BLUEPRINT of
        Inl e \<Rightarrow> Inl e
      | Inr u \<Rightarrow> getitem u CONF_INPUT)"

text \<open>\<open>BlueprintInputs.validate\<close>\<close>

definition BlueprintInputs_validate :: "blueprint_inputs \<Rightarrow> (error + unit) \<times> blueprint_inputs"
where
  "BlueprintInputs_validate self =
     ((case inputs self of Inl e \<Rightarrow> Inl e | Inr inp \<Rightarrow>
       (case py_set inp of Inl e \<Rightarrow> Inl e | Inr supplied \<Rightarrow>
          let missing = placeholders (blueprint self) - supplied in
          if missing \<noteq> {} then
            (case Blueprint_name (data (blueprint self)) of Inl e \<Rightarrow> Inl e | Inr nm \<Rightarrow>
               Inl (MissingPlaceholder (domain (blueprint self)) nm missing))
          else Inr ())),
      self)"

text \<open>
  \<open>{**a, **b}\<close>: the items of \<open>a\<close> in their order, each key of \<open>b\<close> overriding the
  value in place or being appended. \<open>d.pop(key)\<close> removes the key and raises
  \<open>KeyError\<close> when it is absent.
\<close>

definition py_merge :: "(string \<times> node) list \<Rightarrow> (string \<times> node) list \<Rightarrow> (string \<times> node) list"
where
  "py_merge a b = fold (\<lambda>kv. AList.update (fst kv) (snd kv)) b a"

definition pop :: "string \<Rightarrow> (string \<times> node) list \<Rightarrow> error + (string \<times> node) list" where
  "pop k d = (if k \<in> fst ` set d then Inr (AList.delete k d) else Inl (KeyError k))"

text \<open>
  \<open>BlueprintInputs.async_substitute\<close>. The substitution engine is given the supplied
  inputs as a mapping, which the instance schema guarantees; another value is reported
  as \<open>TypeError\<close>.
\<close>

definition async_substitute ::
  "blueprint_inputs \<Rightarrow> (error + (string \<times> node) list) \<times> blueprint_inputs"
where
  "async_substitute self =
     ((case inputs self of Inl e \<Rightarrow> Inl e | Inr inp \<Rightarrow>
       (case inp of
          Dict subs \<Rightarrow>
            (case substitute (data (blueprint self)) subs of Inl e \<Rightarrow> Inl e | Inr processed \<Rightarrow>
            (case processed of
               Dict items \<Rightarrow>
                 (case pop CONF_USE_BLUEPRINT (py_merge (config_with_inputs self) items) of
                    Inl e \<Rightarrow> Inl e
                  | Inr combined \<Rightarrow> pop CONF_BLUEPRINT combined)
             | _ \<Rightarrow> Inl TypeError))
        | _ \<Rightarrow> Inl TypeError)),
      self)"

section \<open>File system\<close>

text \<open>
  The registry reaches its files through \<open>pathlib\<close> and \<open>open\<close>, which hand a path
  string to the operating system. The disk is a set of directories and of files with
  their text, each identified by its location: the list of names that leads to it from
  the root directory, which always exists. Symbolic links are not modelled, and path
  strings are absolute, as the configuration directory is.
\<close>

type_synonym location = "string list"

record filesystem =
  dirs :: "location list"
  files :: "(location \<times> string) list"

text \<open>\<open>s.split(c)\<close>\<close>

fun split_on :: "char \<Rightarrow> string \<Rightarrow> string list" where
  "split_on c [] = [[]]"
| "split_on c (x # xs) =
     (if x = c then [] # split_on c xs
      else (case split_on c xs of w # ws \<Rightarrow> (x # w) # ws | [] \<Rightarrow> [[x]]))"

text \<open>\<open>'/'.join(names)\<close>\<close>

fun join_names :: "string list \<Rightarrow> string" where
  "join_names [] = []"
| "join_names [n] = n"
| "join_names (n # m # ns) = n @ ''/'' @ join_names (m # ns)"

text \<open>
  \<open>os.path.join(a, b)\<close>: an absolute second part replaces the first. \<open>config_path\<close>
  below applies it to the folder of the domain, itself the result of
  \<open>hass.config.path(BLUEPRINT_FOLDER, domain)\<close>.
\<close>

definition path_join :: "string \<Rightarrow> string \<Rightarrow> string" where
  "path_join a b =
     (if take 1 b = ''/'' then b
      else if a = [] \<or> drop (length a - 1) a = ''/'' then a @ b
      else a @ ''/'' @ b)"

text \<open>
  \<open>pathlib.Path(s)\<close> keeps the names of the path, dropping empty names and the name
  \<open>.\<close> but keeping \<open>..\<close>; \<open>Path.parent\<close> drops the last name.
\<close>

definition Path :: "string \<Rightarrow> string list" where
  "Path s = filter (\<lambda>n. n \<noteq> [] \<and> n \<noteq> ''.'') (split_on (CHR ''/'') s)"

text \<open>
  How the operating system resolves the names of a path, from the directory \<open>cur\<close>:
  \<open>..\<close> is the parent of the directory reached so far (the root is its own parent), a
  name must be a directory to be passed through. The outcome is the directory or file
  found, the location of a missing last name in an existing directory, or the error
  \<open>ENOENT\<close> or \<open>ENOTDIR\<close>.
\<close>

datatype resolution =
    Found_dir location
  | Found_file location
  | Missing location
  | ENOENT
  | ENOTDIR

fun walk :: "filesystem \<Rightarrow> location \<Rightarrow> string list \<Rightarrow> resolution" where
  "walk fs cur [] = Found_dir cur"
| "walk fs cur (n # ns) =
     (if n = [] \<or> n = ''.'' then walk fs cur ns
      else if n = ''..'' then walk fs (butlast cur) ns
      else if cur @ [n] \<in> set (dirs fs) then walk fs (cur @ [n]) ns
      else if cur @ [n] \<in> fst ` set (files fs) then
        (if ns = [] then Found_file (cur @ [n]) else ENOTDIR)
      else (if ns = [] then Missing (cur @ [n]) else ENOENT))"

text \<open>\<open>Path.exists()\<close> and \<open>Path.is_dir()\<close>\<close>

definition exists :: "filesystem \<Rightarrow> string list \<Rightarrow> bool" where
  "exists fs p =
     (case walk fs [] p of Found_dir _ \<Rightarrow> True | Found_file _ \<Rightarrow> True | _ \<Rightarrow> False)"

definition is_dir :: "filesystem \<Rightarrow> string list \<Rightarrow> bool" where
  "is_dir fs p = (case walk fs [] p of Found_dir _ \<Rightarrow> True | _ \<Rightarrow> False)"

text \<open>\<open>os.mkdir\<close>\<close>

definition os_mkdir :: "filesystem \<Rightarrow> string list \<Rightarrow> (io_error + unit) \<times> filesystem" where
  "os_mkdir fs p =
     (case walk fs [] p of
        Missing loc \<Rightarrow> (Inr (), fs\<lparr>dirs := dirs fs @ [loc]\<rparr>)
      | Found_dir _ \<Rightarrow> (Inl FileExistsError, fs)
      | Found_file _ \<Rightarrow> (Inl FileExistsError, fs)
      | ENOENT \<Rightarrow> (Inl FileNotFoundError, fs)
      | ENOTDIR \<Rightarrow> (Inl NotADirectoryError, fs))"

text \<open>
  \<open>Path.mkdir(exist_ok=True)\<close> and \<open>Path.mkdir(parents=True, exist_ok=True)\<close>, the
  latter on the names of the path in reverse, so that its parent is the tail. A missing
  ancestor makes \<open>pathlib\<close> create the parent and try again without \<open>parents\<close>; any
  other error of \<open>os.mkdir\<close> is passed over when the path is a directory.
\<close>

definition mkdir_exist_ok :: "filesystem \<Rightarrow> string list \<Rightarrow> (io_error + unit) \<times> filesystem" where
  "mkdir_exist_ok fs p =
     (case os_mkdir fs p of
        (Inr u, fs') \<Rightarrow> (Inr (), fs')
      | (Inl e, fs') \<Rightarrow>
          if e \<noteq> FileNotFoundError \<and> is_dir fs p then (Inr (), fs) else (Inl e, fs))"

fun mkdir_parents :: "filesystem \<Rightarrow> string list \<Rightarrow> (io_error + unit) \<times> filesystem" where
  "mkdir_parents fs [] = mkdir_exist_ok fs []"
| "mkdir_parents fs (n # rparent) =
     (case os_mkdir fs (rev (n # rparent)) of
        (Inr u, fs') \<Rightarrow> (Inr (), fs')
      | (Inl e, fs') \<Rightarrow>
          if e = FileNotFoundError then
            (case mkdir_parents fs rparent of
               (Inl e', fs'') \<Rightarrow> (Inl e', fs'')
             | (Inr u, fs'') \<Rightarrow> mkdir_exist_ok fs'' (rev (n # rparent)))
          else if is_dir fs (rev (n # rparent)) then (Inr (), fs)
          else (Inl e, fs))"

text \<open>\<open>Path.write_text\<close>: the file is created, or truncated and rewritten.\<close>

definition write_text ::
  "filesystem \<Rightarrow> string list \<Rightarrow> string \<Rightarrow> (io_error + unit) \<times> filesystem" where
  "write_text fs p content =
     (case walk fs [] p of
        Found_file loc \<Rightarrow> (Inr (), fs\<lparr>files := AList.update loc content (files fs)\<rparr>)
      | Missing loc \<Rightarrow> (Inr (), fs\<lparr>files := files fs @ [(loc, content)]\<rparr>)
      | Found_dir _ \<Rightarrow> (Inl IsADirectoryError, fs)
      | ENOENT \<Rightarrow> (Inl FileNotFoundError, fs)
      | ENOTDIR \<Rightarrow> (Inl NotADirectoryError, fs))"

text \<open>\<open>Path.unlink\<close>\<close>

definition unlink :: "filesystem \<Rightarrow> string list \<Rightarrow> (io_error + unit) \<times> filesystem" where
  "unlink fs p =
     (case walk fs [] p of
        Found_file loc \<Rightarrow> (Inr (), fs\<lparr>files := AList.delete loc (files fs)\<rparr>)
      | Found_dir _ \<Rightarrow> (Inl IsADirectoryError, fs)
      | Missing _ \<Rightarrow> (Inl FileNotFoundError, fs)
      | ENOENT \<Rightarrow> (Inl FileNotFoundError, fs)
      | ENOTDIR \<Rightarrow> (Inl NotADirectoryError, fs))"

text \<open>\<open>open(fname)\<close> and reading the text; the name goes to the system as it is.\<close>

definition read_text :: "filesystem \<Rightarrow> string \<Rightarrow> io_error + string" where
  "read_text fs fname =
     (case walk fs [] (split_on (CHR ''/'') fname) of
        Found_file loc \<Rightarrow>
          (case map_of (files fs) loc of None \<Rightarrow> Inl FileNotFoundError | Some t \<Rightarrow> Inr t)
      | Found_dir _ \<Rightarrow> Inl IsADirectoryError
      | Missing _ \<Rightarrow> Inl FileNotFoundError
      | ENOENT \<Rightarrow> Inl FileNotFoundError
      | ENOTDIR \<Rightarrow> Inl NotADirectoryError)"

definition endswith :: "string \<Rightarrow> string \<Rightarrow> bool" where
  "endswith s suffix \<longleftrightarrow>
     length suffix \<le> length s \<and> drop (length s - length suffix) s = suffix"

text \<open>
  \<open>Path(folder).glob("**/*.yaml")\<close>, each result made relative to the folder and turned
  into a string: the entries below the folder, at any depth, whose name ends in
  \<open>.yaml\<close>. The order of a directory scan is left open by the system; files come first
  here.
\<close>

definition glob_yaml :: "filesystem \<Rightarrow> string list \<Rightarrow> string list" where
  "glob_yaml fs p =
     (case walk fs [] p of
        Found_dir base \<Rightarrow>
          map (\<lambda>loc. join_names (drop (length base) loc))
            (filter (\<lambda>loc. length base < length loc \<and> take (length base) loc = base \<and>
                            endswith (last loc) ''.yaml'')
               (map fst (files fs) @ dirs fs))
      | _ \<Rightarrow> [])"

section \<open>DomainBlueprints\<close>

text \<open>
  The state a registry works on: its own fields \<open>domain\<close> and \<open>_blueprints\<close> (the
  cache, where a key bound to \<open>None\<close> is a path without a usable blueprint), the path
  string \<open>folder\<close> that \<open>hass.config.path(BLUEPRINT_FOLDER, domain)\<close> gives, and the
  disk. \<open>reads\<close> logs every call of \<open>yaml.load_yaml\<close>, one entry per disk read, by
  the blueprint path it is made for. The YAML parser and serialiser are parameters:
  \<open>parse\<close> gives \<open>None\<close> for text that does not load, \<open>dump\<close> renders a document.
\<close>

record state =
  self_domain :: string
  folder :: string
  blueprints :: "string \<rightharpoonup> blueprint option"
  disk :: filesystem
  reads :: "string list"

text \<open>\<open>hass.config.path(BLUEPRINT_FOLDER, self.domain, blueprint_path)\<close>\<close>

definition config_path :: "state \<Rightarrow> string \<Rightarrow> string" where
  "config_path st blueprint_path = path_join (folder st) blueprint_path"

definition async_reset_cache :: "state \<Rightarrow> state" where
  "async_reset_cache st = st\<lparr>blueprints := Map.empty\<rparr>"

text \<open>\<open>yaml.load_yaml\<close>: errors of \<open>open\<close> pass through, text that does not load
  raises \<open>HomeAssistantError\<close>.\<close>

definition load_yaml :: "(string \<Rightarrow> node option) \<Rightarrow> filesystem \<Rightarrow> string \<Rightarrow> io_error + node" where
  "load_yaml parse fs fname =
     (case read_text fs fname of
        Inl e \<Rightarrow> Inl e
      | Inr content \<Rightarrow>
          (case parse content of None \<Rightarrow> Inl HomeAssistantError | Some d \<Rightarrow> Inr d))"

text \<open>
  \<open>_load_blueprint\<close>: only \<open>HomeAssistantError\<close> and \<open>FileNotFoundError\<close> are turned
  into \<open>FailedToLoad\<close>.
\<close>

definition load_blueprint ::
  "(string \<Rightarrow> node option) \<Rightarrow> state \<Rightarrow> string \<Rightarrow> (error + blueprint) \<times> state" where
  "load_blueprint parse st blueprint_path =
     ((case load_yaml parse (disk st) (config_path st blueprint_path) of
         Inl err \<Rightarrow>
           if err = HomeAssistantError \<or> err = FileNotFoundError
           then Inl (FailedToLoad (self_domain st) blueprint_path err)
           else Inl (OSError err)
       | Inr blueprint_data \<Rightarrow>
           Blueprint_init blueprint_data (Some blueprint_path) (Some (self_domain st))),
      st\<lparr>reads := reads st @ [blueprint_path]\<rparr>)"

text \<open>
  The classes that \<open>models.py\<close> imports from \<open>errors.py\<close> next to
  \<open>BlueprintException\<close> are its subclasses; the built-in exceptions are not.
\<close>

fun is_BlueprintException :: "error \<Rightarrow> bool" where
  "is_BlueprintException (InvalidBlueprint _ _ _ _) = True"
| "is_BlueprintException (FailedToLoad _ _ _) = True"
| "is_BlueprintException (MissingPlaceholder _ _ _) = True"
| "is_BlueprintException (FileAlreadyExists _ _) = True"
| "is_BlueprintException _ = False"

text \<open>
  \<open>_load_blueprints\<close>: the loop over the paths of the glob, with the result
  dictionary as an accumulator. An exception that is not a \<open>BlueprintException\<close>
  leaves the loop.
\<close>

fun load_loop ::
  "(string \<Rightarrow> node option) \<Rightarrow> string list \<Rightarrow> state \<Rightarrow> (string \<times> (error + blueprint)) list \<Rightarrow>
     (error + (string \<times> (error + blueprint)) list) \<times> state"
where
  "load_loop parse [] st results = (Inr results, st)"
| "load_loop parse (p # ps) st results =
     (case blueprints st p of
        Some (Some bp) \<Rightarrow> load_loop parse ps st (AList.update p (Inr bp) results)
      | _ \<Rightarrow>
          (case fst (load_blueprint parse st p) of
             Inr bp \<Rightarrow>
               load_loop parse ps
                 ((snd (load_blueprint parse st p))
                    \<lparr>blueprints := (blueprints (snd (load_blueprint parse st p)))(p \<mapsto> Some bp)\<rparr>)
                 (AList.update p (Inr bp) results)
           | Inl err \<Rightarrow>
               if is_BlueprintException err then
                 load_loop parse ps
                   ((snd (load_blueprint parse st p))
                      \<lparr>blueprints := (blueprints (snd (load_blueprint parse st p)))(p \<mapsto> None)\<rparr>)
                   (AList.update p (Inl err) results)
               else (Inl err, snd (load_blueprint parse st p))))"

definition load_blueprints ::
  "(string \<Rightarrow> node option) \<Rightarrow> state \<Rightarrow> (error + (string \<times> (error + blueprint)) list) \<times> state"
where
  "load_blueprints parse st =
     load_loop parse (glob_yaml (disk st) (Path (folder st))) st []"

definition async_get_blueprints ::
  "(string \<Rightarrow> node option) \<Rightarrow> state \<Rightarrow> (error + (string \<times> (error + blueprint)) list) \<times> state"
where
  "async_get_blueprints parse st = load_blueprints parse st"

text \<open>
  \<open>async_get_blueprint\<close>. A task runs without interruption up to its next suspension
  point; the method has two, the wait for the lock and the wait for the executor job.
  \<open>get_locked\<close> is the body under the lock: the second look at the cache, the load and
  the store. No other task is in that body while one holds the lock, and the cache is
  written only after the load has returned.
\<close>

definition get_locked ::
  "(string \<Rightarrow> node option) \<Rightarrow> state \<Rightarrow> string \<Rightarrow> (error + blueprint option) \<times> state" where
  "get_locked parse st blueprint_path =
     (case blueprints st blueprint_path of
        Some cached \<Rightarrow> (Inr cached, st)
      | None \<Rightarrow>
          (case load_blueprint parse st blueprint_path of
             (Inl e, st') \<Rightarrow>
               (Inl e, st'\<lparr>blueprints := (blueprints st')(blueprint_path \<mapsto> None)\<rparr>)
           | (Inr bp, st') \<Rightarrow>
               (Inr (Some bp), st'\<lparr>blueprints := (blueprints st')(blueprint_path \<mapsto> Some bp)\<rparr>)))"

definition async_get_blueprint ::
  "(string \<Rightarrow> node option) \<Rightarrow> state \<Rightarrow> string \<Rightarrow> (error + blueprint option) \<times> state" where
  "async_get_blueprint parse st blueprint_path =
     (case blueprints st blueprint_path of
        Some cached \<Rightarrow> (Inr cached, st)
      | None \<Rightarrow> get_locked parse st blueprint_path)"

text \<open>
  Two tasks that call \<open>async_get_blueprint\<close> for a path that is not cached: the first
  takes the lock and waits for its load; the second starts meanwhile, misses the cache
  as well and waits for the lock; it runs its body under the lock once the first has
  stored its outcome and released the lock. The result is what each caller receives.
\<close>

definition two_callers ::
  "(string \<Rightarrow> node option) \<Rightarrow> state \<Rightarrow> string \<Rightarrow>
     (error + blueprint option) \<times> (error + blueprint option) \<times> state" where
  "two_callers parse st blueprint_path =
     (case get_locked parse st blueprint_path of
        (first, st1) \<Rightarrow>
          (case get_locked parse st1 blueprint_path of
             (second, st2) \<Rightarrow> (first, second, st2)))"

text \<open>
  \<open>async_remove_blueprint\<close>: an error of \<open>path.unlink\<close> leaves the method before the
  cache is touched.
\<close>

definition async_remove_blueprint :: "state \<Rightarrow> string \<Rightarrow> (error + unit) \<times> state" where
  "async_remove_blueprint st blueprint_path =
     (case unlink (disk st) (Path (config_path st blueprint_path)) of
        (Inl e, fs) \<Rightarrow> (Inl (OSError e), st)
      | (Inr u, fs) \<Rightarrow>
          (Inr (), st\<lparr>disk := fs, blueprints := (blueprints st)(blueprint_path \<mapsto> None)\<rparr>))"

text \<open>
  \<open>_create_file\<close>: the test \<open>path.exists()\<close>, then \<open>path.parent.mkdir\<close> and
  \<open>path.write_text\<close>, each of which resolves the path anew.
\<close>

definition create_file ::
  "(node \<Rightarrow> string) \<Rightarrow> state \<Rightarrow> blueprint \<Rightarrow> string \<Rightarrow> (error + unit) \<times> state" where
  "create_file dump st bp blueprint_path =
     (let path = Path (config_path st blueprint_path) in
      if exists (disk st) path then
        (Inl (FileAlreadyExists (self_domain st) blueprint_path), st)
      else
        (case mkdir_parents (disk st) (rev (butlast path)) of
           (Inl e, fs) \<Rightarrow> (Inl (OSError e), st\<lparr>disk := fs\<rparr>)
         | (Inr u, fs) \<Rightarrow>
             (case write_text fs path (dump (data bp)) of
                (Inl e, fs') \<Rightarrow> (Inl (OSError e), st\<lparr>disk := fs'\<rparr>)
              | (Inr u', fs') \<Rightarrow> (Inr (), st\<lparr>disk := fs'\<rparr>))))"

definition async_add_blueprint ::
  "(node \<Rightarrow> string) \<Rightarrow> state \<Rightarrow> blueprint \<Rightarrow> string \<Rightarrow> (error + unit) \<times> state" where
  "async_add_blueprint dump st bp blueprint_path =
     (let path = (if \<not> endswith blueprint_path ''.yaml''
                  then blueprint_path @ ''.yaml'' else blueprint_path)
      in case create_file dump st bp path of
           (Inl e, st') \<Rightarrow> (Inl e, st')
         | (Inr u, st') \<Rightarrow> (Inr (), st'\<lparr>blueprints := (blueprints st')(path \<mapsto> Some bp)\<rparr>))"

text \<open>
  What can happen to a registry between two calls: its own operations, and a file of
  the folder being written from outside.
\<close>

datatype operation =
    Get_blueprint string
  | Get_blueprints
  | Remove_blueprint string
  | Add_blueprint blueprint string
  | Reset_cache
  | Edit_file string string

fun perform ::
  "(string \<Rightarrow> node option) \<Rightarrow> (node \<Rightarrow> string) \<Rightarrow> operation \<Rightarrow> state \<Rightarrow> state" where
  "perform parse dump (Get_blueprint p) st = snd (async_get_blueprint parse st p)"
| "perform parse dump Get_blueprints st = snd (async_get_blueprints parse st)"
| "perform parse dump (Remove_blueprint p) st = snd (async_remove_blueprint st p)"
| "perform parse dump (Add_blueprint bp p) st = snd (async_add_blueprint dump st bp p)"
| "perform parse dump Reset_cache st = async_reset_cache st"
| "perform parse dump (Edit_file p content) st =
     st\<lparr>disk := snd (write_text (disk st) (Path (config_path st p)) content)\<rparr>"

definition run ::
  "(string \<Rightarrow> node option) \<Rightarrow> (node \<Rightarrow> string) \<Rightarrow> operation list \<Rightarrow> state \<Rightarrow> state" where
  "run parse dump ops st = fold (perform parse dump) ops st"

section \<open>deCONZ device wrapper\<close>

record device =
  uniqueid :: "string option"
  manufacturer :: string
  modelid :: string
  name :: string
  swversion :: string

record deconz_base =
  device :: device
  bridgeid :: string

text \<open>\<open>s.split(sep, 1)\<close> for a separator of one character.\<close>

definition split1 :: "string \<Rightarrow> char \<Rightarrow> string list" where
  "split1 s sep =
     (if sep \<in> set s
      then [takeWhile (\<lambda>c. c \<noteq> sep) s, tl (dropWhile (\<lambda>c. c \<noteq> sep) s)]
      else [s])"

text \<open>\<open>DeconzBase.serial\<close>; \<open>None\<close> is Python's \<open>None\<close>. The list that \<open>split\<close>
  returns is never empty, so its element 0 exists.\<close>

definition serial :: "deconz_base \<Rightarrow> string option" where
  "serial self =
     (case uniqueid (device self) of
        None \<Rightarrow> None
      | Some u \<Rightarrow>
          if count_list u (CHR '':'') \<noteq> 7 then None
          else Some (hd (split1 u (CHR ''-''))))"

record device_description =
  connections :: "(string \<times> string) set"
  identifiers :: "(string \<times> string) set"
  info_manufacturer :: string
  info_model :: string
  info_name :: string
  info_sw_version :: string
  via_device :: "string \<times> string"

text \<open>\<open>DeconzBase.device_info\<close>; the two imported constants are parameters.\<close>

definition device_info :: "string \<Rightarrow> string \<Rightarrow> deconz_base \<Rightarrow> device_description option" where
  "device_info CONNECTION_ZIGBEE DECONZ_DOMAIN self =
     (case serial self of
        None \<Rightarrow> None
      | Some sn \<Rightarrow>
          Some \<lparr>connections = {(CONNECTION_ZIGBEE, sn)},
                identifiers = {(DECONZ_DOMAIN, sn)},
                info_manufacturer = manufacturer (device self),
                info_model = modelid (device self),
                info_name = name (device self),
                info_sw_version = swversion (device self),
                via_device = (DECONZ_DOMAIN, bridgeid self)\<rparr>)"

section \<open>Example values\<close>

text \<open>The example document of the spec, and the same document with an undeclared input.\<close>

definition example_doc :: node where
  "example_doc =
     Dict [(''blueprint'',
             Dict [(''domain'', Str ''automation''), (''name'', Str ''Test''),
                   (''input'', Dict [(''target'', Dict [])])]),
           (''action'', Dict [(''service'', Placeholder ''target'')])]"

definition undeclared_doc :: node where
  "undeclared_doc =
     Dict [(''blueprint'',
             Dict [(''domain'', Str ''automation''), (''name'', Str ''Test''),
                   (''input'', Dict [(''target'', Dict [])])]),
           (''action'', Dict [(''service'', Placeholder ''other'')])]"

definition example_blueprint :: blueprint where
  "example_blueprint =
     \<lparr>data = example_doc, placeholders = {''target''}, domain = Str ''automation''\<rparr>"

definition example_config :: "(string \<times> node) list" where
  "example_config =
     [(''alias'', Str ''Kitchen''),
      (''use_blueprint'',
         Dict [(''path'', Str ''test.yaml''),
               (''input'', Dict [(''target'', Str ''light.kitchen'')])])]"

text \<open>
  A disk that holds the blueprint folder of the domain \<open>automation\<close>, the location
  of the file \<open>a.yaml\<close> in it, and a registry on it with an empty cache.
\<close>

definition folder_disk :: filesystem where
  "folder_disk =
     \<lparr>dirs = [[''config''], [''config'', ''blueprints''],
               [''config'', ''blueprints'', ''automation'']],
      files = []\<rparr>"

definition a_yaml :: location where
  "a_yaml = [''config'', ''blueprints'', ''automation'', ''a.yaml'']"

definition empty_registry :: state where
  "empty_registry =
     \<lparr>self_domain = ''automation'', folder = ''/config/blueprints/automation'',
      blueprints = Map.empty, disk = folder_disk, reads = []\<rparr>"

text \<open>The same registry on a disk where the folder holds \<open>a.yaml\<close>.\<close>

definition registry_with_a :: state where
  "registry_with_a = empty_registry\<lparr>disk := folder_disk\<lparr>files := [(a_yaml, ''old'')]\<rparr>\<rparr>"

definition versioned_doc :: node where
  "versioned_doc =
     Dict [(''blueprint'',
             Dict [(''domain'', Str ''automation''), (''name'', Str ''Test''),
                   (''homeassistant'', Dict [(''min_version'', Str ''0.119.0'')]),
                   (''input'', Dict [])])]"

definition example_device :: deconz_base where
  "example_device =
     \<lparr>device = \<lparr>uniqueid = Some ''00:11:22:33:44:55:66:77-01-0006'',
                  manufacturer = ''IKEA'', modelid = ''bulb'', name = ''Lamp'',
                  swversion = ''1.0''\<rparr>,
      bridgeid = ''0123''\<rparr>"

section \<open>Properties of the constructor\<close>

lemmas CONF_defs =
  CONF_BLUEPRINT_def CONF_USE_BLUEPRINT_def CONF_INPUT_def CONF_DOMAIN_def CONF_NAME_def
  CONF_SOURCE_URL_def CONF_HOMEASSISTANT_def CONF_MIN_VERSION_def


lemma required_strD: "required_str x \<Longrightarrow> \<exists>s. x = Some (Str s)"
  by (cases x rule: required_str.cases) simp_all

lemma optional_strD: "optional_str x \<Longrightarrow> x = None \<or> (\<exists>s. x = Some (Str s))"
  by (cases x rule: optional_str.cases) simp_all

lemma input_mappingD: "input_mapping x \<Longrightarrow> \<exists>ins. x = Some (Dict ins)"
  by (cases x rule: input_mapping.cases) simp_all

lemma optional_homeassistantD:
  "optional_homeassistant x \<Longrightarrow>
     x = None \<or> (\<exists>h. x = Some (Dict h) \<and> optional_str (map_of h CONF_MIN_VERSION))"
  by (cases x rule: optional_homeassistant.cases) simp_all

lemma schema_valid_dict:
  assumes "BLUEPRINT_SCHEMA d = Inr d'"
  shows "d' = d \<and> (\<exists>kvs meta.
           d = Dict kvs \<and> map_of kvs CONF_BLUEPRINT = Some (Dict meta) \<and> valid_metadata meta)"
proof (cases d)
  case (Dict kvs)
  show ?thesis
  proof (cases "map_of kvs CONF_BLUEPRINT")
    case None
    with Dict assms show ?thesis by (simp add: BLUEPRINT_SCHEMA_def)
  next
    case (Some m)
    with Dict assms show ?thesis
      by (cases m) (simp_all add: BLUEPRINT_SCHEMA_def split: if_splits)
  qed
qed (use assms in \<open>simp_all add: BLUEPRINT_SCHEMA_def\<close>)

lemma schema_valid_shape:
  assumes "BLUEPRINT_SCHEMA d = Inr d'"
  shows "d' = d \<and> (\<exists>kvs meta dm nm ins.
           d = Dict kvs \<and> map_of kvs CONF_BLUEPRINT = Some (Dict meta) \<and>
           map_of meta CONF_DOMAIN = Some (Str dm) \<and>
           map_of meta CONF_NAME = Some (Str nm) \<and>
           map_of meta CONF_INPUT = Some (Dict ins) \<and> valid_metadata meta)"
proof -
  from schema_valid_dict [OF assms] obtain kvs meta where
    *: "d' = d" "d = Dict kvs" "map_of kvs CONF_BLUEPRINT = Some (Dict meta)"
       "valid_metadata meta"
    by blast
  from *(4) obtain dm nm ins where
    "map_of meta CONF_DOMAIN = Some (Str dm)" "map_of meta CONF_NAME = Some (Str nm)"
    "map_of meta CONF_INPUT = Some (Dict ins)"
    unfolding valid_metadata_def
    by (blast dest: required_strD input_mappingD)
  with * show ?thesis by blast
qed

lemma example_doc_valid: "BLUEPRINT_SCHEMA example_doc = Inr example_doc"
  by (simp add: example_doc_def BLUEPRINT_SCHEMA_def valid_metadata_def CONF_defs)

lemma example_doc_placeholders: "extract_placeholders example_doc = {''target''}"
  by (simp add: example_doc_def)

lemma example_doc_inputs: "declared_inputs example_doc = {''target''}"
  by (simp add: example_doc_def declared_inputs_def CONF_defs)

lemma Blueprint_init_InrD:
  assumes "Blueprint_init D path expected_domain = Inr bp"
  shows "BLUEPRINT_SCHEMA D = Inr D \<and> data bp = D \<and>
         placeholders bp = extract_placeholders D \<and>
         domain bp = declared_domain D \<and>
         extract_placeholders D \<subseteq> declared_inputs D \<and>
         \<not> domain_mismatch expected_domain (declared_domain D)"
proof (cases "BLUEPRINT_SCHEMA D")
  case (Inl e)
  with assms show ?thesis by (simp add: Blueprint_init_def)
next
  case (Inr D')
  from schema_valid_shape [OF Inr] obtain kvs meta dm ins where
    D': "D' = D" and D: "D = Dict kvs" and
    m: "map_of kvs CONF_BLUEPRINT = Some (Dict meta)" and
    d: "map_of meta CONF_DOMAIN = Some (Str dm)" and
    i: "map_of meta CONF_INPUT = Some (Dict ins)"
    by blast
  have di: "declared_inputs D = fst ` set ins"
    by (simp add: declared_inputs_def D m i)
  have dd: "declared_domain D = Str dm"
    by (simp add: declared_domain_def D m d)
  from assms Inr show ?thesis
    unfolding di dd
    by (simp add: Blueprint_init_def Let_def D' D m d i del: extract_placeholders.simps
             split: if_splits sum.splits)
       (auto simp del: extract_placeholders.simps)
qed

lemma Blueprint_name_total:
  assumes "BLUEPRINT_SCHEMA D = Inr D'"
  shows "\<exists>nm. Blueprint_name D = Inr (Str nm)"
proof -
  from schema_valid_shape [OF assms] obtain kvs meta nm where
    "D = Dict kvs" "map_of kvs CONF_BLUEPRINT = Some (Dict meta)"
    "map_of meta CONF_NAME = Some (Str nm)"
    by blast
  then show ?thesis by (simp add: Blueprint_name_def)
qed

lemma path_or_name_valid:
  assumes "BLUEPRINT_SCHEMA D = Inr D'"
  shows "\<exists>pn. path_or_name path D = Inr pn"
  using Blueprint_name_total [OF assms]
  by (auto simp: path_or_name_def split: option.splits)

text \<open>
  C1. For every document that passes the blueprint schema and whose declared input names
  include every placeholder referenced in the document, the constructor succeeds (for
  any path, and for an expected domain that is absent or is the document's domain, in
  particular for \<open>Blueprint(D)\<close>); the object's \<open>placeholders\<close> field is
  \<open>extract_placeholders(D)\<close> and is a subset of the declared input names.
\<close>

theorem Blueprint_init_succeeds:
  assumes valid: "BLUEPRINT_SCHEMA D = Inr D'"
      and covered: "extract_placeholders D \<subseteq> declared_inputs D"
      and dom_ok: "\<not> domain_mismatch expected_domain (declared_domain D)"
  shows "\<exists>bp. Blueprint_init D path expected_domain = Inr bp \<and>
              placeholders bp = extract_placeholders D \<and>
              placeholders bp \<subseteq> declared_inputs D"
proof -
  from schema_valid_shape [OF valid] obtain kvs meta dm ins where
    D': "D' = D" and D: "D = Dict kvs" and
    m: "map_of kvs CONF_BLUEPRINT = Some (Dict meta)" and
    d: "map_of meta CONF_DOMAIN = Some (Str dm)" and
    i: "map_of meta CONF_INPUT = Some (Dict ins)"
    by blast
  have di: "declared_inputs D = fst ` set ins"
    by (simp add: declared_inputs_def D m i)
  have dd: "declared_domain D = Str dm"
    by (simp add: declared_domain_def D m d)
  from covered di have "extract_placeholders (Dict kvs) - fst ` set ins = {}"
    by (auto simp: D)
  then have "Blueprint_init D path expected_domain =
      Inr \<lparr>data = D, placeholders = extract_placeholders D, domain = Str dm\<rparr>"
    using valid dom_ok [unfolded dd]
    by (simp add: Blueprint_init_def Let_def D' D m d i del: extract_placeholders.simps)
  then show ?thesis using covered by simp
qed

text \<open>The theorem at the example document of the spec, built as \<open>Blueprint(D)\<close>.\<close>

theorem Blueprint_init_succeeds_witness:
  "BLUEPRINT_SCHEMA example_doc = Inr example_doc \<and>
   extract_placeholders example_doc \<subseteq> declared_inputs example_doc \<and>
   \<not> domain_mismatch None (declared_domain example_doc) \<and>
   (\<exists>bp. Blueprint_init example_doc None None = Inr bp \<and>
         placeholders bp = extract_placeholders example_doc \<and>
         placeholders bp \<subseteq> declared_inputs example_doc)"
proof -
  have h1: "BLUEPRINT_SCHEMA example_doc = Inr example_doc"
    by (rule example_doc_valid)
  have h2: "extract_placeholders example_doc \<subseteq> declared_inputs example_doc"
    by (simp add: example_doc_placeholders example_doc_inputs)
  have h3: "\<not> domain_mismatch None (declared_domain example_doc)"
    by simp
  from Blueprint_init_succeeds [OF h1 h2 h3, of None] h1 h2 h3 show ?thesis
    by blast
qed

text \<open>
  C2 (amended). For every schema-valid document that references a placeholder name
  absent from the declared input mapping, the constructor raises \<open>InvalidBlueprint\<close>
  and returns no object. The domain check comes first: when an expected domain is given
  and differs from the document's domain, the error reports the incorrect blueprint
  type; otherwise it lists the missing input definitions, the undeclared name among them.
\<close>

theorem Blueprint_init_undeclared:
  assumes valid: "BLUEPRINT_SCHEMA D = Inr D'"
      and used: "n \<in> extract_placeholders D"
      and undeclared: "n \<notin> declared_inputs D"
  shows "\<exists>dm pn det. Blueprint_init D path expected_domain = Inl (InvalidBlueprint dm pn D det) \<and>
           (if domain_mismatch expected_domain (declared_domain D)
            then \<exists>e. expected_domain = Some e \<and> det = Incorrect_type (declared_domain D) (Str e)
            else det = Missing_input_definition (extract_placeholders D - declared_inputs D) \<and>
                 n \<in> extract_placeholders D - declared_inputs D)"
proof -
  from schema_valid_shape [OF valid] obtain kvs meta dm ins where
    D': "D' = D" and D: "D = Dict kvs" and
    m: "map_of kvs CONF_BLUEPRINT = Some (Dict meta)" and
    d: "map_of meta CONF_DOMAIN = Some (Str dm)" and
    i: "map_of meta CONF_INPUT = Some (Dict ins)"
    by blast
  have di: "declared_inputs D = fst ` set ins"
    by (simp add: declared_inputs_def D m i)
  have dd: "declared_domain D = Str dm"
    by (simp add: declared_domain_def D m d)
  from path_or_name_valid [OF valid] obtain pn where pn: "path_or_name path D = Inr pn"
    by blast
  have missing: "extract_placeholders D - fst ` set ins \<noteq> {}"
    using used undeclared di by blast
  show ?thesis
  proof (cases "domain_mismatch expected_domain (Str dm)")
    case True
    then obtain e where e: "expected_domain = Some e"
      by (cases expected_domain) simp_all
    have "Blueprint_init D path expected_domain =
        Inl (InvalidBlueprint (py_opt expected_domain) pn D (Incorrect_type (Str dm) (Str e)))"
      using valid True pn [unfolded D] missing [unfolded D]
      by (simp add: Blueprint_init_def Let_def D' D m d i e del: extract_placeholders.simps)
    with True e show ?thesis by (simp add: dd)
  next
    case False
    have "Blueprint_init D path expected_domain =
        Inl (InvalidBlueprint (Str dm) pn D
               (Missing_input_definition (extract_placeholders D - fst ` set ins)))"
      using valid False pn [unfolded D] missing [unfolded D]
      by (simp add: Blueprint_init_def Let_def D' D m d i del: extract_placeholders.simps)
    with False used undeclared show ?thesis by (simp add: dd di)
  qed
qed

text \<open>The theorem at the spec's document with the undeclared input \<open>other\<close>.\<close>

theorem Blueprint_init_undeclared_witness:
  "BLUEPRINT_SCHEMA undeclared_doc = Inr undeclared_doc \<and>
   ''other'' \<in> extract_placeholders undeclared_doc \<and>
   ''other'' \<notin> declared_inputs undeclared_doc \<and>
   (\<exists>dm pn. Blueprint_init undeclared_doc None None =
       Inl (InvalidBlueprint dm pn undeclared_doc (Missing_input_definition {''other''})))"
proof -
  have h1: "BLUEPRINT_SCHEMA undeclared_doc = Inr undeclared_doc"
    by (simp add: undeclared_doc_def BLUEPRINT_SCHEMA_def valid_metadata_def CONF_defs)
  have h2: "''other'' \<in> extract_placeholders undeclared_doc"
    by (simp add: undeclared_doc_def)
  have h3: "''other'' \<notin> declared_inputs undeclared_doc"
    by (simp add: undeclared_doc_def declared_inputs_def CONF_defs)
  have e: "extract_placeholders undeclared_doc - declared_inputs undeclared_doc = {''other''}"
    by (simp add: undeclared_doc_def declared_inputs_def CONF_defs)
  from Blueprint_init_undeclared [OF h1 h2 h3, of None None] h1 h2 h3 show ?thesis
    by (auto simp: e)
qed

text \<open>
  With an expected domain \<open>script\<close> the same document, of domain \<open>automation\<close>,
  is rejected for its type, and the error does not name the missing input.
\<close>

theorem Blueprint_init_mismatch_counterexample:
  "BLUEPRINT_SCHEMA undeclared_doc = Inr undeclared_doc \<and>
   ''other'' \<in> extract_placeholders undeclared_doc \<and>
   ''other'' \<notin> declared_inputs undeclared_doc \<and>
   Blueprint_init undeclared_doc None (Some ''script'') =
     Inl (InvalidBlueprint (Str ''script'') (Str ''Test'') undeclared_doc
            (Incorrect_type (Str ''automation'') (Str ''script'')))"
  by (simp add: undeclared_doc_def BLUEPRINT_SCHEMA_def valid_metadata_def CONF_defs
        declared_inputs_def Blueprint_init_def path_or_name_def Blueprint_name_def)

section \<open>Properties of BlueprintInputs\<close>

lemma validated_inputs:
  assumes "fst (BlueprintInputs_validate self) = Inr ()"
  shows "\<exists>subs. inputs self = Inr (Dict subs) \<and>
           placeholders (blueprint self) \<subseteq> fst ` set subs"
proof (cases "inputs self")
  case (Inl e)
  with assms show ?thesis by (simp add: BlueprintInputs_validate_def)
next
  case (Inr inp)
  show ?thesis
  proof (cases inp)
    case (Dict subs)
    with assms Inr show ?thesis
      by (auto simp: BlueprintInputs_validate_def Let_def split: if_splits sum.splits)
  qed (use assms Inr in \<open>simp_all add: BlueprintInputs_validate_def\<close>)
qed

lemma example_blueprint_built: "Blueprint_init example_doc None None = Inr example_blueprint"
  by (simp add: example_doc_def example_blueprint_def BLUEPRINT_SCHEMA_def valid_metadata_def
        CONF_defs Blueprint_init_def)

lemma substitute_total:
  "extract_placeholders d \<subseteq> fst ` set subs \<Longrightarrow> \<exists>r. substitute d subs = Inr r"
  "(\<Union>x \<in> set xs. extract_placeholders x) \<subseteq> fst ` set subs \<Longrightarrow>
     \<exists>r. substitute_list xs subs = Inr r"
  "(\<Union>kv \<in> set kvs. extract_placeholders (snd kv)) \<subseteq> fst ` set subs \<Longrightarrow>
     \<exists>r. substitute_items kvs subs = Inr r \<and> map fst r = map fst kvs"
  by (induction d subs and xs subs and kvs subs
        rule: substitute_substitute_list_substitute_items.induct)
     (auto split: option.splits sum.splits simp: map_of_eq_None_iff)

lemma substitute_Dict:
  assumes "extract_placeholders (Dict kvs) \<subseteq> fst ` set subs"
  shows "\<exists>items. substitute (Dict kvs) subs = Inr (Dict items) \<and> map fst items = map fst kvs"
proof -
  from assms have "(\<Union>kv \<in> set kvs. extract_placeholders (snd kv)) \<subseteq> fst ` set subs"
    by simp
  from substitute_total(3) [OF this] show ?thesis by auto
qed

lemma map_of_py_merge:
  "distinct (map fst b) \<Longrightarrow> map_of (py_merge a b) = map_of a ++ map_of b"
proof (induction b arbitrary: a)
  case Nil
  then show ?case by (simp add: py_merge_def)
next
  case (Cons kv b)
  obtain k v where kv: "kv = (k, v)" by (cases kv)
  from Cons.prems kv have d: "distinct (map fst b)" and k: "k \<notin> fst ` set b"
    by auto
  have "map_of (py_merge a (kv # b)) = map_of (py_merge (AList.update k v a) b)"
    by (simp add: py_merge_def kv)
  also have "\<dots> = (map_of a)(k \<mapsto> v) ++ map_of b"
    by (simp only: Cons.IH [OF d] update_conv')
  also have "\<dots> = map_of a ++ map_of (kv # b)"
  proof (rule ext)
    fix x
    from k have "map_of b k = None" by (simp add: map_of_eq_None_iff)
    then show "((map_of a)(k \<mapsto> v) ++ map_of b) x = (map_of a ++ map_of (kv # b)) x"
      by (cases "map_of b x") (auto simp: kv map_add_def)
  qed
  finally show ?case .
qed

lemma keys_py_merge: "fst ` set (py_merge a b) = fst ` set a \<union> fst ` set b"
proof (induction b arbitrary: a)
  case Nil
  then show ?case by (simp add: py_merge_def)
next
  case (Cons kv b)
  have "fst ` set (py_merge a (kv # b)) = fst ` set (py_merge (AList.update (fst kv) (snd kv) a) b)"
    by (simp add: py_merge_def)
  also have "\<dots> = fst ` set (AList.update (fst kv) (snd kv) a) \<union> fst ` set b"
    by (rule Cons.IH)
  also have "\<dots> = fst ` set a \<union> fst ` set (kv # b)"
    by (simp add: dom_update)
  finally show ?case .
qed

lemma map_of_delete: "map_of (AList.delete k al) = (map_of al)(k := None)"
  by (simp add: delete_conv')

lemma keys_delete: "fst ` set (AList.delete k al) = fst ` set al - {k}"
  by (induction al) auto

lemma inputs_use_blueprint:
  assumes "inputs self = Inr inp"
  shows "CONF_USE_BLUEPRINT \<in> fst ` set (config_with_inputs self)"
proof (cases "map_of (config_with_inputs self) CONF_USE_BLUEPRINT")
  case None
  with assms show ?thesis by (simp add: inputs_def)
next
  case (Some u)
  then show ?thesis by (meson domI dom_map_of_conv_image_fst [THEN equalityD1, THEN subsetD])
qed

lemma pop_present: "k \<in> fst ` set d \<Longrightarrow> pop k d = Inr (AList.delete k d)"
  by (simp add: pop_def)

lemma example_blueprint_inputs_valid:
  "fst (BlueprintInputs_validate
          \<lparr>blueprint = example_blueprint, config_with_inputs = example_config\<rparr>) = Inr ()"
  by (simp add: BlueprintInputs_validate_def inputs_def example_config_def example_blueprint_def
        CONF_defs)



text \<open>
  C4. For a validated inputs object over a constructed blueprint (a document whose
  top-level keys are unique, as those of a dictionary are), \<open>async_substitute\<close>
  returns the substituted blueprint document merged over the caller's configuration:
  the result maps every key as the substituted document does, else as the configuration
  does, except the use-blueprint key and the blueprint-metadata key, which it does not
  contain. The inputs object, with the caller's configuration in it, is the same after
  the call.
\<close>

theorem async_substitute_merges:
  assumes built: "Blueprint_init D path expected_domain = Inr (blueprint self)"
      and validated: "fst (BlueprintInputs_validate self) = Inr ()"
      and unique: "data (blueprint self) = Dict kvs" "distinct (map fst kvs)"
  shows "\<exists>subs items combined.
           inputs self = Inr (Dict subs) \<and>
           substitute (data (blueprint self)) subs = Inr (Dict items) \<and>
           async_substitute self = (Inr combined, self) \<and>
           combined = AList.delete CONF_BLUEPRINT (AList.delete CONF_USE_BLUEPRINT
                        (py_merge (config_with_inputs self) items)) \<and>
           map_of combined =
             (map_of (config_with_inputs self) ++ map_of items)
               |` (- {CONF_USE_BLUEPRINT, CONF_BLUEPRINT}) \<and>
           CONF_USE_BLUEPRINT \<notin> fst ` set combined \<and>
           CONF_BLUEPRINT \<notin> fst ` set combined"
proof -
  from validated_inputs [OF validated] obtain subs where
    inp: "inputs self = Inr (Dict subs)" and
    cov: "placeholders (blueprint self) \<subseteq> fst ` set subs"
    by blast
  from Blueprint_init_InrD [OF built] have v: "BLUEPRINT_SCHEMA D = Inr D"
    and dt: "data (blueprint self) = D"
    and ph: "placeholders (blueprint self) = extract_placeholders D"
    by simp_all
  from schema_valid_shape [OF v] dt unique(1) obtain meta where
    bpk: "map_of kvs CONF_BLUEPRINT = Some (Dict meta)"
    by auto
  from cov ph dt unique(1) have "extract_placeholders (Dict kvs) \<subseteq> fst ` set subs"
    by simp
  from substitute_Dict [OF this] obtain items where
    sub: "substitute (Dict kvs) subs = Inr (Dict items)" and
    keys: "map fst items = map fst kvs"
    by blast
  let ?merged = "py_merge (config_with_inputs self) items"
  let ?combined = "AList.delete CONF_BLUEPRINT (AList.delete CONF_USE_BLUEPRINT ?merged)"
  have di: "distinct (map fst items)"
    using keys unique(2) by simp
  have "CONF_BLUEPRINT \<in> fst ` set kvs"
    using bpk by (metis domI dom_map_of_conv_image_fst)
  then have bpi: "CONF_BLUEPRINT \<in> fst ` set items"
    using keys by (metis list.set_map)
  have p1: "pop CONF_USE_BLUEPRINT ?merged = Inr (AList.delete CONF_USE_BLUEPRINT ?merged)"
    using inputs_use_blueprint [OF inp] by (intro pop_present) (simp add: keys_py_merge)
  have ne: "CONF_BLUEPRINT \<noteq> CONF_USE_BLUEPRINT"
    by (simp add: CONF_defs)
  have p2: "pop CONF_BLUEPRINT (AList.delete CONF_USE_BLUEPRINT ?merged) = Inr ?combined"
    using bpi ne by (intro pop_present) (simp add: keys_delete keys_py_merge)
  have run: "async_substitute self = (Inr ?combined, self)"
    by (simp add: async_substitute_def inp unique(1) sub p1 p2 del: substitute.simps)
  have m: "map_of ?combined =
      (map_of (config_with_inputs self) ++ map_of items)
        |` (- {CONF_USE_BLUEPRINT, CONF_BLUEPRINT})"
    by (rule ext) (simp add: map_of_delete map_of_py_merge [OF di] restrict_map_def)
  have k: "CONF_USE_BLUEPRINT \<notin> fst ` set ?combined" "CONF_BLUEPRINT \<notin> fst ` set ?combined"
    by (simp_all add: keys_delete)
  from inp sub run m k unique(1) show ?thesis by auto
qed

text \<open>
  The theorem at the spec's scenario: the input \<open>target\<close> is
  \<open>light.kitchen\<close>, and the caller's own \<open>alias\<close> is kept.
\<close>

theorem async_substitute_merges_witness:
  "Blueprint_init example_doc None None =
     Inr (blueprint \<lparr>blueprint = example_blueprint, config_with_inputs = example_config\<rparr>) \<and>
   fst (BlueprintInputs_validate
          \<lparr>blueprint = example_blueprint, config_with_inputs = example_config\<rparr>) = Inr () \<and>
   async_substitute \<lparr>blueprint = example_blueprint, config_with_inputs = example_config\<rparr> =
     (Inr [(''alias'', Str ''Kitchen''),
           (''action'', Dict [(''service'', Str ''light.kitchen'')])],
      \<lparr>blueprint = example_blueprint, config_with_inputs = example_config\<rparr>)"
proof -
  let ?self = "\<lparr>blueprint = example_blueprint, config_with_inputs = example_config\<rparr>"
  let ?kvs = "[(''blueprint'',
             Dict [(''domain'', Str ''automation''), (''name'', Str ''Test''),
                   (''input'', Dict [(''target'', Dict [])])]),
           (''action'', Dict [(''service'', Placeholder ''target'')])]"
  have h1: "Blueprint_init example_doc None None = Inr (blueprint ?self)"
    by (simp add: example_blueprint_built)
  have h2: "fst (BlueprintInputs_validate ?self) = Inr ()"
    by (rule example_blueprint_inputs_valid)
  have h3: "data (blueprint ?self) = Dict ?kvs"
    by (simp add: example_blueprint_def example_doc_def)
  have h4: "distinct (map fst ?kvs)"
    by simp
  from async_substitute_merges [OF h1 h2 h3 h4] obtain subs items combined where
    a: "inputs ?self = Inr (Dict subs)" and
    b: "substitute (data (blueprint ?self)) subs = Inr (Dict items)" and
    c: "async_substitute ?self = (Inr combined, ?self)" and
    d: "combined = AList.delete CONF_BLUEPRINT (AList.delete CONF_USE_BLUEPRINT
                        (py_merge (config_with_inputs ?self) items))"
    by blast
  from a have subs: "subs = [(''target'', Str ''light.kitchen'')]"
    by (simp add: inputs_def example_config_def CONF_defs)
  from b have items: "items = [(''blueprint'',
             Dict [(''domain'', Str ''automation''), (''name'', Str ''Test''),
                   (''input'', Dict [(''target'', Dict [])])]),
           (''action'', Dict [(''service'', Str ''light.kitchen'')])]"
    by (simp add: subs example_blueprint_def example_doc_def)
  have "combined = [(''alias'', Str ''Kitchen''),
           (''action'', Dict [(''service'', Str ''light.kitchen'')])]"
    unfolding d items
    by (simp add: py_merge_def example_config_def CONF_defs)
  with c h1 h2 show ?thesis by simp
qed

section \<open>Properties of the registry\<close>

lemmas disk_defs =
  empty_registry_def registry_with_a_def folder_disk_def a_yaml_def config_path_def
  path_join_def Path_def

lemma endswith_append: "endswith (p @ s) s"
  by (simp add: endswith_def)

lemma create_file_existing:
  assumes "exists (disk st) (Path (config_path st p))"
  shows "create_file dump st bp p = (Inl (FileAlreadyExists (self_domain st) p), st)"
  using assms by (simp add: create_file_def)

lemma async_add_blueprint_existing:
  assumes "exists (disk st) (Path (config_path st (p @ ''.yaml'')))" and "\<not> endswith p ''.yaml''"
  shows "async_add_blueprint dump st bp p =
           (Inl (FileAlreadyExists (self_domain st) (p @ ''.yaml'')), st)"
  using assms by (simp add: async_add_blueprint_def create_file_existing)

text \<open>
  C5. The folder holds \<open>a.yaml\<close> and no directory \<open>sub\<close>. Adding a blueprint
  under the path \<open>sub/../a\<close> returns normally and replaces the text of
  \<open>a.yaml\<close>: the test for an existing file fails on the missing directory, which
  \<open>mkdir\<close> then creates, so that the write reaches the file that was there.
\<close>

theorem async_add_blueprint_overwrites:
  "map_of (files (disk registry_with_a)) a_yaml = Some ''old'' \<and>
   fst (async_add_blueprint (\<lambda>d. ''new'') registry_with_a example_blueprint ''sub/../a'') =
     Inr () \<and>
   map_of (files (disk (snd (async_add_blueprint (\<lambda>d. ''new'') registry_with_a
     example_blueprint ''sub/../a'')))) a_yaml = Some ''new''"
  by (simp add: async_add_blueprint_def create_file_def endswith_def disk_defs exists_def
        is_dir_def os_mkdir_def mkdir_exist_ok_def write_text_def)

lemma load_blueprint_state:
  "snd (load_blueprint parse st p) = st\<lparr>reads := reads st @ [p]\<rparr>"
  by (simp add: load_blueprint_def)

lemma get_cached:
  "blueprints st p = Some c \<Longrightarrow> async_get_blueprint parse st p = (Inr c, st)"
  by (simp add: async_get_blueprint_def)

lemma get_locked_outcome:
  assumes "blueprints st p = None"
  shows "get_locked parse st p =
     (case fst (load_blueprint parse st p) of
        Inl e \<Rightarrow> (Inl e, st\<lparr>reads := reads st @ [p], blueprints := (blueprints st)(p \<mapsto> None)\<rparr>)
      | Inr bp \<Rightarrow>
          (Inr (Some bp), st\<lparr>reads := reads st @ [p], blueprints := (blueprints st)(p \<mapsto> Some bp)\<rparr>))"
proof -
  obtain r s where rs: "load_blueprint parse st p = (r, s)"
    by (cases "load_blueprint parse st p")
  with load_blueprint_state [of parse st p] have s: "s = st\<lparr>reads := reads st @ [p]\<rparr>"
    by simp
  show ?thesis
    using assms by (simp add: get_locked_def rs s split: sum.splits)
qed

lemma get_miss:
  assumes "blueprints st p = None"
  shows "async_get_blueprint parse st p =
     (case fst (load_blueprint parse st p) of
        Inl e \<Rightarrow> (Inl e, st\<lparr>reads := reads st @ [p], blueprints := (blueprints st)(p \<mapsto> None)\<rparr>)
      | Inr bp \<Rightarrow>
          (Inr (Some bp), st\<lparr>reads := reads st @ [p], blueprints := (blueprints st)(p \<mapsto> Some bp)\<rparr>))"
  using assms get_locked_outcome [OF assms, of parse]
  by (simp add: async_get_blueprint_def)

lemma get_keeps_keys:
  "dom (blueprints st) \<subseteq> dom (blueprints (snd (async_get_blueprint parse st q)))"
proof (cases "blueprints st q")
  case None
  then show ?thesis
    by (auto simp: get_miss split: sum.splits)
next
  case (Some c)
  then show ?thesis by (simp add: get_cached)
qed

lemma load_loop_step:
  "\<exists>st' r. dom (blueprints st) \<subseteq> dom (blueprints st') \<and>
      (load_loop parse (p # ps) st results = load_loop parse ps st' r \<or>
       snd (load_loop parse (p # ps) st results) = st')"
proof -
  let ?s = "snd (load_blueprint parse st p)"
  have s: "blueprints ?s = blueprints st"
    by (simp add: load_blueprint_state)
  have grow: "dom (blueprints st) \<subseteq> dom (blueprints (?s\<lparr>blueprints := (blueprints ?s)(p \<mapsto> v)\<rparr>))"
    for v
    using s by auto
  have same: "dom (blueprints st) \<subseteq> dom (blueprints ?s)"
    using s by simp
  have miss: ?thesis if c: "blueprints st p = None \<or> blueprints st p = Some None"
  proof (cases "fst (load_blueprint parse st p)")
    case (Inr bp)
    with c have "load_loop parse (p # ps) st results =
        load_loop parse ps (?s\<lparr>blueprints := (blueprints ?s)(p \<mapsto> Some bp)\<rparr>)
          (AList.update p (Inr bp) results)"
      by auto
    with grow show ?thesis by blast
  next
    case (Inl err)
    show ?thesis
    proof (cases "is_BlueprintException err")
      case True
      with c Inl have "load_loop parse (p # ps) st results =
          load_loop parse ps (?s\<lparr>blueprints := (blueprints ?s)(p \<mapsto> None)\<rparr>)
            (AList.update p (Inl err) results)"
        by auto
      with grow show ?thesis by blast
    next
      case False
      with c Inl have "snd (load_loop parse (p # ps) st results) = ?s"
        by auto
      with same show ?thesis by blast
    qed
  qed
  show ?thesis
  proof (cases "blueprints st p")
    case None
    then show ?thesis by (rule miss [OF disjI1])
  next
    case (Some c)
    show ?thesis
    proof (cases c)
      case None
      with Some show ?thesis by (intro miss disjI2) simp
    next
      case (Some bp)
      with \<open>blueprints st p = Some c\<close> have
        "load_loop parse (p # ps) st results =
           load_loop parse ps st (AList.update p (Inr bp) results)"
        by simp
      then show ?thesis by blast
    qed
  qed
qed

lemma load_loop_keeps_keys:
  "dom (blueprints st) \<subseteq> dom (blueprints (snd (load_loop parse ps st results)))"
proof (induction ps arbitrary: st results)
  case Nil
  then show ?case by simp
next
  case (Cons p ps)
  from load_loop_step [of st parse p ps results] obtain st' r where
    sub: "dom (blueprints st) \<subseteq> dom (blueprints st')" and
    step: "load_loop parse (p # ps) st results = load_loop parse ps st' r \<or>
           snd (load_loop parse (p # ps) st results) = st'"
    by blast
  from step show ?case
  proof
    assume "load_loop parse (p # ps) st results = load_loop parse ps st' r"
    then have eq: "snd (load_loop parse (p # ps) st results) = snd (load_loop parse ps st' r)"
      by (simp only:)
    from sub Cons.IH [of st' r] show ?thesis
      unfolding eq by (rule order_trans)
  next
    assume "snd (load_loop parse (p # ps) st results) = st'"
    with sub show ?thesis by simp
  qed
qed

lemma perform_keeps_keys:
  assumes "op \<noteq> Reset_cache"
  shows "dom (blueprints st) \<subseteq> dom (blueprints (perform parse dump op st))"
proof (cases op)
  case (Get_blueprint q)
  then show ?thesis using get_keeps_keys by simp
next
  case Get_blueprints
  then show ?thesis
    using load_loop_keeps_keys by (simp add: async_get_blueprints_def load_blueprints_def)
next
  case (Remove_blueprint q)
  then show ?thesis
    by (auto simp: async_remove_blueprint_def split: prod.splits sum.splits)
next
  case (Add_blueprint bp q)
  then show ?thesis
    by (auto simp: async_add_blueprint_def create_file_def Let_def
          split: prod.splits sum.splits)
next
  case Reset_cache
  with assms show ?thesis by simp
next
  case (Edit_file q body)
  then show ?thesis by simp
qed

lemma run_keeps_keys:
  "Reset_cache \<notin> set ops \<Longrightarrow> dom (blueprints st) \<subseteq> dom (blueprints (run parse dump ops st))"
proof (induction ops arbitrary: st)
  case Nil
  then show ?case by (simp add: run_def)
next
  case (Cons op ops)
  then have "op \<noteq> Reset_cache" and r: "Reset_cache \<notin> set ops" by auto
  from perform_keeps_keys [OF this(1)]
  have "dom (blueprints st) \<subseteq> dom (blueprints (perform parse dump op st))" .
  also from Cons.IH [OF r]
  have "\<dots> \<subseteq> dom (blueprints (run parse dump ops (perform parse dump op st)))" .
  finally show ?case by (simp add: run_def)
qed

text \<open>
  C6. When \<open>async_get_blueprint\<close> misses the cache and the load fails, the error
  goes to the caller and the path is cached with \<open>None\<close>, after one disk read.
  From then on, whatever is done to the registry or to the file short of resetting the
  cache, a call for that path returns the cached entry and leaves the state, the log of
  disk reads included, as it was. After a reset of the cache a call reads the disk again.
\<close>

theorem failed_load_is_cached:
  assumes miss: "blueprints st p = None"
      and fails: "fst (load_blueprint parse st p) = Inl e"
  shows "fst (async_get_blueprint parse st p) = Inl e \<and>
         blueprints (snd (async_get_blueprint parse st p)) p = Some None \<and>
         reads (snd (async_get_blueprint parse st p)) = reads st @ [p] \<and>
         (\<forall>ops. Reset_cache \<notin> set ops \<longrightarrow>
            (\<exists>c. blueprints (run parse dump ops (snd (async_get_blueprint parse st p))) p = Some c \<and>
                 async_get_blueprint parse
                   (run parse dump ops (snd (async_get_blueprint parse st p))) p =
                 (Inr c, run parse dump ops (snd (async_get_blueprint parse st p))))) \<and>
         (\<forall>st'. reads (snd (async_get_blueprint parse (async_reset_cache st') p)) =
                  reads st' @ [p])"
proof -
  let ?s1 = "snd (async_get_blueprint parse st p)"
  have g: "async_get_blueprint parse st p =
      (Inl e, st\<lparr>reads := reads st @ [p], blueprints := (blueprints st)(p \<mapsto> None)\<rparr>)"
    using fails by (simp add: get_miss [OF miss])
  have a: "fst (async_get_blueprint parse st p) = Inl e"
    and b: "blueprints ?s1 p = Some None"
    and c: "reads ?s1 = reads st @ [p]"
    by (simp_all add: g)
  have d: "\<exists>c. blueprints (run parse dump ops ?s1) p = Some c \<and>
               async_get_blueprint parse (run parse dump ops ?s1) p =
                 (Inr c, run parse dump ops ?s1)"
    if "Reset_cache \<notin> set ops" for ops
  proof -
    from b have "p \<in> dom (blueprints ?s1)" by blast
    with run_keeps_keys [OF that, of ?s1 parse dump]
    obtain c where "blueprints (run parse dump ops ?s1) p = Some c" by blast
    with get_cached [OF this, of parse] show ?thesis by blast
  qed
  have r: "reads (snd (async_get_blueprint parse (async_reset_cache st') p)) = reads st' @ [p]"
    for st'
  proof -
    have "blueprints (async_reset_cache st') p = None"
      by (simp add: async_reset_cache_def)
    from get_miss [OF this, of parse] show ?thesis
      by (simp add: async_reset_cache_def split: sum.splits)
  qed
  from a b c d r show ?thesis by blast
qed

text \<open>
  The theorem at a path without a file: the load fails, and a call made after the file
  has appeared on disk still answers from the cache without a second read.
\<close>

theorem failed_load_is_cached_witness:
  "blueprints empty_registry ''missing.yaml'' = None \<and>
   fst (load_blueprint (\<lambda>t. Some example_doc) empty_registry ''missing.yaml'') =
     Inl (FailedToLoad ''automation'' ''missing.yaml'' FileNotFoundError) \<and>
   fst (async_get_blueprint (\<lambda>t. Some example_doc) empty_registry ''missing.yaml'') =
     Inl (FailedToLoad ''automation'' ''missing.yaml'' FileNotFoundError) \<and>
   fst (async_get_blueprint (\<lambda>t. Some example_doc)
          (run (\<lambda>t. Some example_doc) (\<lambda>d. ''text'') [Edit_file ''missing.yaml'' ''text'']
             (snd (async_get_blueprint (\<lambda>t. Some example_doc) empty_registry ''missing.yaml'')))
          ''missing.yaml'') = Inr None \<and>
   reads (snd (async_get_blueprint (\<lambda>t. Some example_doc)
          (run (\<lambda>t. Some example_doc) (\<lambda>d. ''text'') [Edit_file ''missing.yaml'' ''text'']
             (snd (async_get_blueprint (\<lambda>t. Some example_doc) empty_registry ''missing.yaml'')))
          ''missing.yaml'')) = [''missing.yaml'']"
proof -
  let ?parse = "\<lambda>t::string. Some example_doc"
  let ?dump = "\<lambda>d::node. ''text''"
  let ?e = "FailedToLoad ''automation'' ''missing.yaml'' FileNotFoundError"
  let ?s1 = "snd (async_get_blueprint ?parse empty_registry ''missing.yaml'')"
  let ?s2 = "run ?parse ?dump [Edit_file ''missing.yaml'' ''text''] ?s1"
  have h1: "blueprints empty_registry ''missing.yaml'' = None"
    by (simp add: empty_registry_def)
  have h2: "fst (load_blueprint ?parse empty_registry ''missing.yaml'') = Inl ?e"
    by (simp add: load_blueprint_def load_yaml_def read_text_def disk_defs)
  note t = failed_load_is_cached [OF h1 h2, of ?dump]
  from t have a: "fst (async_get_blueprint ?parse empty_registry ''missing.yaml'') = Inl ?e"
    and b: "blueprints ?s1 ''missing.yaml'' = Some None"
    and c: "reads ?s1 = reads empty_registry @ [''missing.yaml'']"
    by blast+
  from t have "Reset_cache \<notin> set [Edit_file ''missing.yaml'' ''text''] \<longrightarrow>
      (\<exists>c. blueprints ?s2 ''missing.yaml'' = Some c \<and>
           async_get_blueprint ?parse ?s2 ''missing.yaml'' = (Inr c, ?s2))"
    by blast
  then obtain c where c1: "blueprints ?s2 ''missing.yaml'' = Some c"
    and c2: "async_get_blueprint ?parse ?s2 ''missing.yaml'' = (Inr c, ?s2)"
    by auto
  have s2: "blueprints ?s2 = blueprints ?s1" "reads ?s2 = reads ?s1"
    by (simp_all add: run_def)
  from c1 b have "c = None" by (simp add: s2)
  with c2 have d: "fst (async_get_blueprint ?parse ?s2 ''missing.yaml'') = Inr None"
    by simp
  from c2 have "reads (snd (async_get_blueprint ?parse ?s2 ''missing.yaml'')) = reads ?s2"
    by simp
  also have "\<dots> = reads empty_registry @ [''missing.yaml'']"
    by (simp only: s2 c)
  also have "\<dots> = [''missing.yaml'']"
    by (simp add: empty_registry_def)
  finally have e: "reads (snd (async_get_blueprint ?parse ?s2 ''missing.yaml'')) = [''missing.yaml'']" .
  from h1 h2 a d e show ?thesis by blast
qed

lemma walk_after_delete:
  "walk fs cur ns = Found_file loc \<Longrightarrow>
     walk (fs\<lparr>files := AList.delete loc (files fs)\<rparr>) cur ns = Missing loc"
proof (induction ns arbitrary: cur)
  case Nil
  then show ?case by simp
next
  case (Cons n ns)
  show ?case
  proof (cases "n = [] \<or> n = ''.''")
    case True
    with Cons show ?thesis by auto
  next
    case False
    show ?thesis
    proof (cases "n = ''..''")
      case True
      with Cons False show ?thesis by auto
    next
      case up: False
      show ?thesis
      proof (cases "cur @ [n] \<in> set (dirs fs)")
        case True
        with Cons False up show ?thesis by auto
      next
        case nd: False
        from Cons.prems False up nd have "ns = []" and "loc = cur @ [n]"
          by (auto split: if_splits)
        with False up nd show ?thesis
          by (simp add: delete_notin_dom)
      qed
    qed
  qed
qed

lemma unlink_outcome:
  "unlink fs p =
     (case walk fs [] p of
        Found_file loc \<Rightarrow> (Inr (), fs\<lparr>files := AList.delete loc (files fs)\<rparr>)
      | _ \<Rightarrow> (fst (unlink fs p), fs))"
  by (simp add: unlink_def split: resolution.splits)

text \<open>
  C7 (amended). For every path, when \<open>async_remove_blueprint\<close> returns it has
  deleted the backing file and bound the path to \<open>None\<close> in the cache, the mark
  that a failed load leaves: the path stays a key of the cache, and the cache holds no
  blueprint for it. When the deletion raises, the state is as it was before the call.
\<close>

theorem async_remove_blueprint_marks:
  "(case async_remove_blueprint st p of
      (Inr u, st') \<Rightarrow>
        (\<exists>loc. walk (disk st) [] (Path (config_path st p)) = Found_file loc \<and>
           disk st' = (disk st)\<lparr>files := AList.delete loc (files (disk st))\<rparr>) \<and>
        \<not> exists (disk st') (Path (config_path st p)) \<and>
        blueprints st' = (blueprints st)(p \<mapsto> None) \<and>
        blueprints st' p \<noteq> Some (Some bp)
    | (Inl e, st') \<Rightarrow> st' = st)"
proof (cases "walk (disk st) [] (Path (config_path st p))")
  case (Found_file loc)
  let ?fs = "(disk st)\<lparr>files := AList.delete loc (files (disk st))\<rparr>"
  have r: "async_remove_blueprint st p =
      (Inr (), st\<lparr>disk := ?fs, blueprints := (blueprints st)(p \<mapsto> None)\<rparr>)"
    by (simp add: async_remove_blueprint_def unlink_def Found_file)
  have "walk ?fs [] (Path (config_path st p)) = Missing loc"
    using Found_file by (rule walk_after_delete)
  then have "\<not> exists ?fs (Path (config_path st p))"
    by (simp add: exists_def config_path_def)
  with Found_file show ?thesis
    by (simp add: r config_path_def)
qed (simp_all add: async_remove_blueprint_def unlink_def)

text \<open>The theorem at a registry with one cached blueprint and its file.\<close>

theorem async_remove_blueprint_marks_witness:
  "fst (async_remove_blueprint
      (registry_with_a\<lparr>blueprints := [''a.yaml'' \<mapsto> Some example_blueprint]\<rparr>) ''a.yaml'') =
     Inr () \<and>
   blueprints (snd (async_remove_blueprint
      (registry_with_a\<lparr>blueprints := [''a.yaml'' \<mapsto> Some example_blueprint]\<rparr>) ''a.yaml''))
     ''a.yaml'' = Some None \<and>
   files (disk (snd (async_remove_blueprint
      (registry_with_a\<lparr>blueprints := [''a.yaml'' \<mapsto> Some example_blueprint]\<rparr>) ''a.yaml''))) =
     []"
proof -
  let ?st = "registry_with_a\<lparr>blueprints := [''a.yaml'' \<mapsto> Some example_blueprint]\<rparr>"
  have w: "walk (disk ?st) [] (Path (config_path ?st ''a.yaml'')) = Found_file a_yaml"
    by (simp add: disk_defs)
  have u: "unlink (disk ?st) (Path (config_path ?st ''a.yaml'')) =
      (Inr (), (disk ?st)\<lparr>files := AList.delete a_yaml (files (disk ?st))\<rparr>)"
    unfolding unlink_def w by simp
  have ok: "fst (async_remove_blueprint ?st ''a.yaml'') = Inr ()"
    unfolding async_remove_blueprint_def u by simp
  obtain st' where r: "async_remove_blueprint ?st ''a.yaml'' = (Inr (), st')"
    using ok by (cases "async_remove_blueprint ?st ''a.yaml''") simp
  from async_remove_blueprint_marks [of ?st "''a.yaml''" example_blueprint]
  have "disk st' = (disk ?st)\<lparr>files := AList.delete a_yaml (files (disk ?st))\<rparr>"
    and "blueprints st' = (blueprints ?st)(''a.yaml'' \<mapsto> None)"
    unfolding r w by auto
  then have "blueprints st' ''a.yaml'' = Some None" and "files (disk st') = []"
    by (simp_all add: registry_with_a_def)
  with r show ?thesis by simp
qed

text \<open>
  A file that does not load is cached as failed; removing it leaves the path cached as
  failed, so the removal does not take the path out of that state. And where a
  blueprint is cached but its file is not on disk, the removal raises and the blueprint
  stays in the cache.
\<close>

theorem async_remove_blueprint_counterexample:
  "blueprints
     (snd (async_get_blueprint (\<lambda>t. None) registry_with_a ''a.yaml'')) ''a.yaml'' = Some None \<and>
   fst (async_remove_blueprint
     (snd (async_get_blueprint (\<lambda>t. None) registry_with_a ''a.yaml'')) ''a.yaml'') = Inr () \<and>
   blueprints
     (snd (async_remove_blueprint
       (snd (async_get_blueprint (\<lambda>t. None) registry_with_a ''a.yaml'')) ''a.yaml''))
     ''a.yaml'' = Some None \<and>
   fst (async_remove_blueprint
     (empty_registry\<lparr>blueprints := [''a.yaml'' \<mapsto> Some example_blueprint]\<rparr>) ''a.yaml'') =
     Inl (OSError FileNotFoundError) \<and>
   blueprints
     (snd (async_remove_blueprint
       (empty_registry\<lparr>blueprints := [''a.yaml'' \<mapsto> Some example_blueprint]\<rparr>) ''a.yaml''))
     ''a.yaml'' = Some (Some example_blueprint)"
  by (simp add: async_get_blueprint_def get_locked_def load_blueprint_def load_yaml_def
        read_text_def async_remove_blueprint_def unlink_def disk_defs)

lemma two_callers_outcome:
  assumes "blueprints st p = None"
  shows "two_callers parse st p =
     (case fst (load_blueprint parse st p) of
        Inl e \<Rightarrow>
          (Inl e, Inr None,
           st\<lparr>reads := reads st @ [p], blueprints := (blueprints st)(p \<mapsto> None)\<rparr>)
      | Inr bp \<Rightarrow>
          (Inr (Some bp), Inr (Some bp),
           st\<lparr>reads := reads st @ [p], blueprints := (blueprints st)(p \<mapsto> Some bp)\<rparr>))"
proof (cases "fst (load_blueprint parse st p)")
  case (Inl e)
  let ?s1 = "st\<lparr>reads := reads st @ [p], blueprints := (blueprints st)(p \<mapsto> None)\<rparr>"
  from Inl have 1: "get_locked parse st p = (Inl e, ?s1)"
    by (simp add: get_locked_outcome [OF assms])
  have 2: "get_locked parse ?s1 p = (Inr None, ?s1)"
    by (simp add: get_locked_def)
  show ?thesis by (simp add: two_callers_def 1 2 Inl)
next
  case (Inr bp)
  let ?s1 = "st\<lparr>reads := reads st @ [p], blueprints := (blueprints st)(p \<mapsto> Some bp)\<rparr>"
  from Inr have 1: "get_locked parse st p = (Inr (Some bp), ?s1)"
    by (simp add: get_locked_outcome [OF assms])
  have 2: "get_locked parse ?s1 p = (Inr (Some bp), ?s1)"
    by (simp add: get_locked_def)
  show ?thesis by (simp add: two_callers_def 1 2 Inr)
qed

text \<open>
  C9. Two concurrent callers for a path without a file: there is one disk read, the
  first caller receives \<open>FailedToLoad\<close>, and the second receives the value
  \<open>None\<close> instead of a failure.
\<close>

theorem two_callers_failed_load:
  "two_callers (\<lambda>t. None) empty_registry ''missing.yaml'' =
     (Inl (FailedToLoad ''automation'' ''missing.yaml'' FileNotFoundError),
      Inr None,
      empty_registry\<lparr>reads := [''missing.yaml''],
                       blueprints := [''missing.yaml'' \<mapsto> None]\<rparr>)"
  by (simp add: two_callers_def get_locked_def load_blueprint_def load_yaml_def
        read_text_def disk_defs)

section \<open>Properties of Blueprint.validate\<close>

lemma built_min_version:
  assumes "BLUEPRINT_SCHEMA D = Inr D'"
  shows "\<exists>md ha. Blueprint_metadata D = Inr md \<and>
           get_default md CONF_HOMEASSISTANT (Dict []) = Inr ha \<and>
           get_default ha CONF_MIN_VERSION Null =
             Inr (case declared_min_version D of None \<Rightarrow> Null | Some v \<Rightarrow> Str v)"
proof -
  from schema_valid_shape [OF assms] obtain kvs meta where
    D: "D = Dict kvs" and m: "map_of kvs CONF_BLUEPRINT = Some (Dict meta)" and
    v: "valid_metadata meta"
    by blast
  from v have "optional_homeassistant (map_of meta CONF_HOMEASSISTANT)"
    by (simp add: valid_metadata_def)
  from optional_homeassistantD [OF this] show ?thesis
  proof
    assume n: "map_of meta CONF_HOMEASSISTANT = None"
    then show ?thesis
      by (simp add: Blueprint_metadata_def D m declared_min_version_def)
  next
    assume "\<exists>h. map_of meta CONF_HOMEASSISTANT = Some (Dict h) \<and>
      optional_str (map_of h CONF_MIN_VERSION)"
    then obtain h where h: "map_of meta CONF_HOMEASSISTANT = Some (Dict h)"
      and o: "optional_str (map_of h CONF_MIN_VERSION)"
      by blast
    from optional_strD [OF o] show ?thesis
      by (auto simp: Blueprint_metadata_def D m h declared_min_version_def)
  qed
qed

text \<open>
  C8. For a constructed blueprint, \<open>Blueprint.validate\<close> returns \<open>None\<close> when the
  metadata declares no minimum version or the running version is at least the declared
  one in the order of parsed versions; otherwise it returns the one-element list that
  names the required minimum version. The blueprint is the same after the call.
\<close>

theorem Blueprint_validate_min_version:
  assumes built: "Blueprint_init D path expected_domain = Inr bp"
  shows "Blueprint_validate parse_version version bp =
     (Inr (case declared_min_version D of
             None \<Rightarrow> None
           | Some mv \<Rightarrow>
               if parse_version mv \<le> parse_version version then None
               else Some [''Requires at least Home Assistant '' @ mv]),
      bp)"
proof -
  from Blueprint_init_InrD [OF built] have v: "BLUEPRINT_SCHEMA D = Inr D"
    and dt: "data bp = D"
    by simp_all
  from built_min_version [OF v] obtain md ha where
    "Blueprint_metadata D = Inr md"
    "get_default md CONF_HOMEASSISTANT (Dict []) = Inr ha"
    "get_default ha CONF_MIN_VERSION Null =
       Inr (case declared_min_version D of None \<Rightarrow> Null | Some v \<Rightarrow> Str v)"
    by blast
  then show ?thesis
    by (cases "declared_min_version D")
       (auto simp: Blueprint_validate_def dt Let_def)
qed

text \<open>
  The theorem at a blueprint that requires 0.119.0, on a system of version 0.118.0 and
  on one of version 0.119.0.
\<close>

theorem Blueprint_validate_min_version_witness:
  "(\<exists>bp. Blueprint_init versioned_doc None None = Inr bp \<and>
     Blueprint_validate (\<lambda>v. if v = ''0.119.0'' then 119 else (118::nat)) ''0.118.0'' bp =
       (Inr (Some [''Requires at least Home Assistant 0.119.0'']), bp) \<and>
     Blueprint_validate (\<lambda>v. if v = ''0.119.0'' then 119 else (118::nat)) ''0.119.0'' bp =
       (Inr None, bp))"
proof -
  have b: "Blueprint_init versioned_doc None None =
      Inr \<lparr>data = versioned_doc, placeholders = {}, domain = Str ''automation''\<rparr>"
    by (simp add: versioned_doc_def BLUEPRINT_SCHEMA_def valid_metadata_def CONF_defs
          Blueprint_init_def)
  have m: "declared_min_version versioned_doc = Some ''0.119.0''"
    by (simp add: versioned_doc_def declared_min_version_def CONF_defs)
  from Blueprint_validate_min_version [OF b, of "\<lambda>v. if v = ''0.119.0'' then 119 else (118::nat)" "''0.118.0''"]
    Blueprint_validate_min_version [OF b, of "\<lambda>v. if v = ''0.119.0'' then 119 else (118::nat)" "''0.119.0''"]
  show ?thesis
    unfolding m using b by simp
qed


section \<open>Properties of the deCONZ device wrapper\<close>

lemma split1_hd: "hd (split1 u sep) = takeWhile (\<lambda>c. c \<noteq> sep) u"
proof (cases "sep \<in> set u")
  case True
  then show ?thesis by (simp add: split1_def)
next
  case False
  then have tw: "takeWhile (\<lambda>c. c \<noteq> sep) u = u"
    by (simp add: takeWhile_eq_all_conv) blast
  from False show ?thesis by (simp add: split1_def tw)
qed

text \<open>
  C10. \<open>serial\<close> is \<open>None\<close> exactly when the unique id is \<open>None\<close> or does not
  contain exactly seven colons; otherwise it is the part of the unique id before its
  first hyphen (all of it when there is none). \<open>device_info\<close> is \<open>None\<close> exactly
  when \<open>serial\<close> is.
\<close>

theorem serial_and_device_info:
  "serial self =
     (case uniqueid (device self) of
        None \<Rightarrow> None
      | Some u \<Rightarrow>
          if count_list u (CHR '':'') = 7 then Some (takeWhile (\<lambda>c. c \<noteq> CHR ''-'') u)
          else None) \<and>
   (serial self = None \<longleftrightarrow>
      uniqueid (device self) = None \<or>
      (\<exists>u. uniqueid (device self) = Some u \<and> count_list u (CHR '':'') \<noteq> 7)) \<and>
   (device_info CONNECTION_ZIGBEE DECONZ_DOMAIN self = None \<longleftrightarrow> serial self = None)"
  by (cases "uniqueid (device self)")
     (simp_all add: serial_def device_info_def split1_hd split: option.splits)

text \<open>The theorem at a Zigbee unique id and at a unique id with one colon.\<close>

theorem serial_and_device_info_witness:
  "serial example_device = Some ''00:11:22:33:44:55:66:77'' \<and>
   device_info ''zigbee'' ''deconz'' example_device \<noteq> None \<and>
   serial (example_device\<lparr>device := (device example_device)\<lparr>uniqueid := Some ''aa:bb-01''\<rparr>\<rparr>) = None \<and>
   device_info ''zigbee'' ''deconz''
     (example_device\<lparr>device := (device example_device)\<lparr>uniqueid := Some ''aa:bb-01''\<rparr>\<rparr>) = None"
proof -
  let ?short = "example_device\<lparr>device := (device example_device)\<lparr>uniqueid := Some ''aa:bb-01''\<rparr>\<rparr>"
  have u: "uniqueid (device example_device) = Some ''00:11:22:33:44:55:66:77-01-0006''"
    by (simp add: example_device_def)
  have v: "uniqueid (device ?short) = Some ''aa:bb-01''"
    by simp
  from serial_and_device_info [of example_device "''zigbee''" "''deconz''"]
    serial_and_device_info [of ?short "''zigbee''" "''deconz''"]
  show ?thesis
    unfolding u v by simp
qed



end
